theory Spec2Isabelle
  imports Complex_Main "HOL-Library.Multiset"
begin

section \<open>The restaurant fortune wheel (app.py)\<close>

text \<open>
  The program keeps a list of restaurants, each a dictionary with the keys \<open>name\<close>
  and \<open>probability\<close>, draws one of them at random (\<open>spin_wheel\<close>), draws the wheel as
  an SVG string (\<open>generate_wheel_svg\<close>) and spins it through 60 frames.

  Conventions of the embedding:
  \<^item> a restaurant dictionary is a record; \<open>probability\<close> is a Python integer, so \<open>int\<close>;
  \<^item> Python's floats are idealised as the reals: \<open>/\<close> is exact division and
    \<open>math.cos\<close>, \<open>math.sin\<close>, \<open>math.radians\<close> are the functions of analysis, so
    rounding is not modelled;
  \<^item> Python's exceptions are values of \<open>error\<close>, and a function that can raise
    returns \<open>error + 'a\<close> with \<open>Inl\<close> for the exception;
  \<^item> the text Python prints for a number inside an f-string is not modelled: SVG text
    is a list of pieces, a piece being literal text or a number to be printed.
\<close>

subsection \<open>Data\<close>

record restaurant =
  name :: string
  probability :: int

datatype error = ZeroDivisionError | ValueError | IndexError

text \<open>The values one pass of the loop of \<open>generate_wheel_svg\<close> computes for a segment.\<close>

record segment =
  seg_current_angle :: real
  seg_angle :: real
  seg_x1 :: real
  seg_y1 :: real
  seg_x2 :: real
  seg_y2 :: real
  seg_large_arc :: nat
  seg_color :: string
  seg_text_x :: real
  seg_text_y :: real
  seg_text_rotation :: real
  seg_name :: string

subsection \<open>generate_wheel_svg\<close>

definition size_px :: real where
  "size_px = 400"

definition center :: real where
  "center = size_px / 2"

definition radius :: real where
  "radius = 180"

definition colors :: "string list" where
  "colors = [''#FF6B6B'', ''#4ECDC4'', ''#45B7D1'', ''#FFA07A'', ''#98D8C8'',
             ''#F7DC6F'', ''#BB8FCE'', ''#85C1E2'', ''#F8B739'', ''#52C97F'']"

definition radians :: "real \<Rightarrow> real" where
  "radians d = d * pi / 180"

text \<open>
  The body of the loop \<open>for idx, restaurant in enumerate(restaurants)\<close> up to the
  update of \<open>current_angle\<close>. The division by \<open>total_prob\<close> raises when it is zero.
  \<open>highlight_index\<close> is \<open>None\<close> or a Python integer, compared with \<open>idx\<close> by \<open>==\<close>.
\<close>

definition draw_segment ::
  "int \<Rightarrow> int option \<Rightarrow> nat \<Rightarrow> real \<Rightarrow> restaurant \<Rightarrow> error + segment" where
  "draw_segment total_prob highlight_index idx current_angle r =
     (if total_prob = 0 then Inl ZeroDivisionError
      else
        let angle = (real_of_int (probability r) / real_of_int total_prob) * 360;
            start_angle = radians (current_angle - 90);
            end_angle = radians (current_angle + angle - 90);
            x1 = center + radius * cos start_angle;
            y1 = center + radius * sin start_angle;
            x2 = center + radius * cos end_angle;
            y2 = center + radius * sin end_angle;
            large_arc = (if angle > 180 then 1 else 0);
            color = colors ! (idx mod length colors);
            color = (if highlight_index = Some (int idx) then ''#FFD700'' else color);
            text_angle = radians (current_angle + angle / 2 - 90);
            text_radius = radius * 0.7;
            text_x = center + text_radius * cos text_angle;
            text_y = center + text_radius * sin text_angle;
            text_rotation = current_angle + angle / 2;
            nm = name r;
            nm = (if length nm > 15 then take 13 nm @ ''...'' else nm)
        in Inr \<lparr> seg_current_angle = current_angle, seg_angle = angle,
                 seg_x1 = x1, seg_y1 = y1, seg_x2 = x2, seg_y2 = y2,
                 seg_large_arc = large_arc, seg_color = color,
                 seg_text_x = text_x, seg_text_y = text_y,
                 seg_text_rotation = text_rotation, seg_name = nm \<rparr>)"

text \<open>
  The loop itself: \<open>idx\<close> counts from 0 and \<open>current_angle\<close> grows by the angle of each
  segment drawn. The first exception ends the loop.
\<close>

fun draw_segments ::
  "int \<Rightarrow> int option \<Rightarrow> nat \<Rightarrow> real \<Rightarrow> restaurant list \<Rightarrow> error + segment list" where
  "draw_segments total_prob highlight_index idx current_angle [] = Inr []"
| "draw_segments total_prob highlight_index idx current_angle (r # rest) =
     (case draw_segment total_prob highlight_index idx current_angle r of
        Inl e \<Rightarrow> Inl e
      | Inr seg \<Rightarrow>
          (case draw_segments total_prob highlight_index (idx + 1)
                  (current_angle + seg_angle seg) rest of
             Inl e \<Rightarrow> Inl e
           | Inr segs \<Rightarrow> Inr (seg # segs)))"

text \<open>The segments of a wheel: the loop started at index 0 and angle 0.\<close>

definition wheel_segments :: "restaurant list \<Rightarrow> int option \<Rightarrow> error + segment list" where
  "wheel_segments restaurants highlight_index =
     draw_segments (sum_list (map probability restaurants)) highlight_index 0 0 restaurants"

text \<open>
  The SVG text is a list of pieces: literal text, and the numbers an f-string formats.
  Appending to the Python string is appending to the list.
\<close>

datatype piece = Lit string | Num real

text \<open>The two elements the loop appends to the SVG text for one segment.\<close>

definition segment_svg :: "segment \<Rightarrow> piece list" where
  \<open>segment_svg s =
     (let path = [Lit ''M '', Num center, Lit '' '', Num center, Lit '' L '', Num (seg_x1 s),
                  Lit '' '', Num (seg_y1 s), Lit '' A '', Num radius, Lit '' '', Num radius,
                  Lit '' 0 '', Num (real (seg_large_arc s)), Lit '' 1 '', Num (seg_x2 s),
                  Lit '' '', Num (seg_y2 s), Lit '' Z'']
      in [Lit ''<path d="''] @ path @ [Lit ''" fill="'', Lit (seg_color s),
            Lit ''" stroke="#fff" stroke-width="2"/>'']
         @ [Lit ''<text x="'', Num (seg_text_x s), Lit ''" y="'', Num (seg_text_y s),
            Lit ''" font-size="14" font-weight="bold" text-anchor="middle" transform="rotate('',
            Num (seg_text_rotation s), Lit '', '', Num (seg_text_x s), Lit '', '',
            Num (seg_text_y s), Lit '')" fill="#000">'', Lit (seg_name s), Lit ''</text>''])\<close>

definition generate_wheel_svg ::
  "restaurant list \<Rightarrow> real \<Rightarrow> int option \<Rightarrow> error + piece list" where
  \<open>generate_wheel_svg restaurants rotation highlight_index =
     (if restaurants = [] then Inr [Lit ''<svg></svg>'']
      else
        case wheel_segments restaurants highlight_index of
          Inl e \<Rightarrow> Inl e
        | Inr segs \<Rightarrow>
            let svg = [Lit ''<svg width="'', Num size_px, Lit ''" height="'', Num size_px,
                       Lit ''" viewBox="0 0 '', Num size_px, Lit '' '', Num size_px,
                       Lit ''" style="transform: rotate('', Num rotation,
                       Lit ''deg); transition: transform 0.1s linear;">''];
                svg = svg @ [Lit ''<circle cx="'', Num center, Lit ''" cy="'', Num center,
                       Lit ''" r="'', Num radius,
                       Lit ''" fill="none" stroke="#333" stroke-width="4"/>''];
                svg = svg @ concat (map segment_svg segs);
                svg = svg @ [Lit ''<circle cx="'', Num center, Lit ''" cy="'', Num center,
                       Lit ''" r="30" fill="#333" stroke="#FFD700" stroke-width="3"/>''];
                svg = svg @ [Lit ''<text x="'', Num center, Lit ''" y="'', Num (center + 5),
                       Lit ''" font-size="20" font-weight="bold" text-anchor="middle" fill="#FFD700">SPIN</text>''];
                svg = svg @ [Lit ''</svg>''];
                pointer = [Lit ''<div style="position: relative; width: '', Num size_px,
                       Lit ''px; margin: 0 auto;"><div style="position: absolute; top: -20px; left: 50%; transform: translateX(-50%); width: 0; height: 0; border-left: 15px solid transparent; border-right: 15px solid transparent; border-top: 30px solid #FF0000; z-index: 10;"></div>'']
                       @ svg @ [Lit ''</div>'']
            in Inr pointer)\<close>

subsection \<open>spin_wheel\<close>

text \<open>
  \<open>spin_wheel\<close> ends in \<open>random.choices(names, weights=normalized_weights, k=1)[0]\<close>.
  \<open>random.choices\<close> is the standard library's: it accumulates the weights
  (\<open>itertools.accumulate\<close>), refuses a total that is not positive, and returns the
  element at \<open>bisect(cum_weights, random() * total, 0, n - 1)\<close>, \<open>bisect\<close> being
  \<open>bisect.bisect_right\<close>. The number \<open>random()\<close> returns is the argument \<open>u\<close>.
\<close>

fun accumulate_from :: "real \<Rightarrow> real list \<Rightarrow> real list" where
  "accumulate_from acc [] = []"
| "accumulate_from acc (w # ws) = (acc + w) # accumulate_from (acc + w) ws"

definition accumulate :: "real list \<Rightarrow> real list" where
  "accumulate ws = (case ws of [] \<Rightarrow> [] | w # ws' \<Rightarrow> w # accumulate_from w ws')"

function bisect :: "real list \<Rightarrow> real \<Rightarrow> nat \<Rightarrow> nat \<Rightarrow> nat" where
  "bisect a x lo hi =
     (if lo < hi then
        (let mid = (lo + hi) div 2
         in if x < a ! mid then bisect a x lo mid else bisect a x (mid + 1) hi)
      else lo)"
  by pat_completeness auto

termination
  by (relation "measure (\<lambda>(a, x, lo, hi). hi - lo)") auto

definition choices :: "real \<Rightarrow> 'a list \<Rightarrow> real list \<Rightarrow> error + 'a" where
  "choices u population weights =
     (let n = length population;
          cum_weights = accumulate weights
      in if length cum_weights \<noteq> n then Inl ValueError
         else if cum_weights = [] then Inl IndexError
         else
           let total_w = last cum_weights
           in if total_w \<le> 0 then Inl ValueError
              else
                let hi = n - 1
                in Inr (population ! bisect cum_weights (u * total_w) 0 hi))"

text \<open>The comprehension \<open>[w / total for w in weights]\<close>: each division can raise.
  (\<open>total_w\<close> is the source's \<open>total\<close>.)\<close>

fun divide_all :: "int list \<Rightarrow> int \<Rightarrow> error + real list" where
  "divide_all [] total_w = Inr []"
| "divide_all (w # ws) total_w =
     (if total_w = 0 then Inl ZeroDivisionError
      else
        (case divide_all ws total_w of
           Inl e \<Rightarrow> Inl e
         | Inr qs \<Rightarrow> Inr (real_of_int w / real_of_int total_w # qs)))"

text \<open>
  The weights and their total as \<open>spin_wheel\<close> has them before it normalizes: a total
  of zero replaces every weight by 1 and the total by the number of weights.
\<close>

definition substituted_weights :: "restaurant list \<Rightarrow> int list \<times> int" where
  "substituted_weights restaurants =
     (let weights = map probability restaurants;
          total_w = sum_list weights
      in if total_w = 0 then (replicate (length weights) 1, int (length weights))
         else (weights, total_w))"

text \<open>The weights \<open>spin_wheel\<close> hands to \<open>random.choices\<close>.\<close>

definition normalized_weights :: "restaurant list \<Rightarrow> error + real list" where
  "normalized_weights restaurants =
     (let (weights, total_w) = substituted_weights restaurants
      in divide_all weights total_w)"

definition spin_wheel :: "real \<Rightarrow> restaurant list \<Rightarrow> error + string option" where
  "spin_wheel u restaurants =
     (if restaurants = [] then Inr None
      else
        let names = map name restaurants
        in (case normalized_weights restaurants of
              Inl e \<Rightarrow> Inl e
            | Inr ws \<Rightarrow>
                (case choices u names ws of
                   Inl e \<Rightarrow> Inl e
                 | Inr chosen \<Rightarrow> Inr (Some chosen))))"

subsection \<open>The spin animation\<close>

text \<open>
  The branch of the page that runs while \<open>st.session_state.spinning\<close> is set: for each
  \<open>frame\<close> of \<open>range(frames)\<close> it computes \<open>rotation\<close> and draws the wheel at that
  rotation without highlight; after the loop it draws the wheel once more, at the
  rotation the loop ended with, with the winner highlighted. The branch is entered for
  a list of restaurants that is not empty.
\<close>

definition spins :: int where
  "spins = 5"

definition frames :: nat where
  "frames = 60"

definition eased_progress :: "nat \<Rightarrow> real" where
  "eased_progress frame = (let progress = real frame / real frames in 1 - (1 - progress) ^ 3)"

text \<open>
  The factor of \<open>eased_progress\<close> in the assignment to \<open>rotation\<close>:
  \<open>360 * spins + (360 * sum(... restaurants[:winner_idx+1]) / sum(... restaurants))\<close>.
\<close>

definition target_rotation :: "restaurant list \<Rightarrow> nat \<Rightarrow> error + real" where
  "target_rotation restaurants winner_idx =
     (let num = 360 * sum_list (map probability (take (winner_idx + 1) restaurants));
          den = sum_list (map probability restaurants)
      in if den = 0 then Inl ZeroDivisionError
         else Inr (real_of_int (360 * spins) + real_of_int num / real_of_int den))"

definition frame_rotation :: "restaurant list \<Rightarrow> nat \<Rightarrow> nat \<Rightarrow> error + real" where
  "frame_rotation restaurants winner_idx frame =
     (case target_rotation restaurants winner_idx of
        Inl e \<Rightarrow> Inl e
      | Inr target \<Rightarrow> Inr (eased_progress frame * target))"

text \<open>The loop over the frames: each pass yields the rotation and the wheel drawn.\<close>

fun spin_loop ::
  "restaurant list \<Rightarrow> nat \<Rightarrow> nat list \<Rightarrow> error + (real \<times> piece list) list" where
  "spin_loop restaurants winner_idx [] = Inr []"
| "spin_loop restaurants winner_idx (frame # rest) =
     (case frame_rotation restaurants winner_idx frame of
        Inl e \<Rightarrow> Inl e
      | Inr rotation \<Rightarrow>
          (case generate_wheel_svg restaurants rotation None of
             Inl e \<Rightarrow> Inl e
           | Inr svg \<Rightarrow>
               (case spin_loop restaurants winner_idx rest of
                  Inl e \<Rightarrow> Inl e
                | Inr shown \<Rightarrow> Inr ((rotation, svg) # shown))))"

text \<open>
  The whole animation: the frames of the loop, then the final drawing. \<open>rotation\<close>
  after the loop is the value of the last pass (\<open>frames\<close> is not zero).
\<close>

definition spin_animation ::
  "restaurant list \<Rightarrow> nat \<Rightarrow> error + ((real \<times> piece list) list \<times> (real \<times> piece list))" where
  "spin_animation restaurants winner_idx =
     (case spin_loop restaurants winner_idx [0..<frames] of
        Inl e \<Rightarrow> Inl e
      | Inr shown \<Rightarrow>
          let rotation = fst (last shown)
          in (case generate_wheel_svg restaurants rotation (Some (int winner_idx)) of
                Inl e \<Rightarrow> Inl e
              | Inr svg \<Rightarrow> Inr (shown, (rotation, svg))))"

text \<open>The rotations of the frames of the loop, in order, and the rotation the wheel rests at.\<close>

definition animation_schedule :: "restaurant list \<Rightarrow> nat \<Rightarrow> error + real list" where
  "animation_schedule restaurants winner_idx =
     (case spin_animation restaurants winner_idx of
        Inl e \<Rightarrow> Inl e
      | Inr (shown, final) \<Rightarrow> Inr (map fst shown))"

definition final_rotation :: "restaurant list \<Rightarrow> nat \<Rightarrow> error + real" where
  "final_rotation restaurants winner_idx =
     (case spin_animation restaurants winner_idx of
        Inl e \<Rightarrow> Inl e
      | Inr (shown, final) \<Rightarrow> Inr (fst final))"

text \<open>
  The pointer is a fixed element above the top of the wheel, and the style
  \<open>transform: rotate(rotation deg)\<close> turns the drawing clockwise by \<open>rotation\<close>
  degrees. What is drawn at angle \<open>a\<close> of the wheel is therefore shown at angle
  \<open>a + rotation\<close>, and the angle of the wheel shown under the pointer is \<open>- rotation\<close>
  reduced to the range from 0 to 360. This function is not in the source: it states
  what the specification means by a segment landing under the pointer.
\<close>

definition pointer_angle :: "real \<Rightarrow> real" where
  "pointer_angle rotation = - rotation - 360 * of_int \<lfloor>- rotation / 360\<rfloor>"

text \<open>
  The text \<open>generate_wheel_svg\<close> writes before the segments (the pointer, the opening
  \<open>svg\<close> tag and the border circle) and after them (the centre circle, the word SPIN
  and the closing tags), gathered from the source for the statements below.
\<close>

definition svg_prefix :: "real \<Rightarrow> piece list" where
  \<open>svg_prefix rotation =
     [Lit ''<div style="position: relative; width: '', Num size_px,
      Lit ''px; margin: 0 auto;"><div style="position: absolute; top: -20px; left: 50%; transform: translateX(-50%); width: 0; height: 0; border-left: 15px solid transparent; border-right: 15px solid transparent; border-top: 30px solid #FF0000; z-index: 10;"></div>'',
      Lit ''<svg width="'', Num size_px, Lit ''" height="'', Num size_px,
      Lit ''" viewBox="0 0 '', Num size_px, Lit '' '', Num size_px,
      Lit ''" style="transform: rotate('', Num rotation,
      Lit ''deg); transition: transform 0.1s linear;">'',
      Lit ''<circle cx="'', Num center, Lit ''" cy="'', Num center,
      Lit ''" r="'', Num radius,
      Lit ''" fill="none" stroke="#333" stroke-width="4"/>'']\<close>

definition svg_suffix :: "piece list" where
  \<open>svg_suffix =
     [Lit ''<circle cx="'', Num center, Lit ''" cy="'', Num center,
      Lit ''" r="30" fill="#333" stroke="#FFD700" stroke-width="3"/>'',
      Lit ''<text x="'', Num center, Lit ''" y="'', Num (center + 5),
      Lit ''" font-size="20" font-weight="bold" text-anchor="middle" fill="#FFD700">SPIN</text>'',
      Lit ''</svg>'', Lit ''</div>'']\<close>

text \<open>
  What the specification asks of the drawing of one segment, written as SVG text: a
  wedge from the centre to the point of the rim at angle \<open>a\<close>, along the rim clockwise
  through \<open>sweep\<close> degrees (the large arc when the sweep exceeds 180) to the point at
  angle \<open>a + sweep\<close>, filled with \<open>color\<close>, and the \<open>label\<close> at 0.7 of the radius on
  the half-angle, turned by the half-angle. Angles are in degrees from the top of the
  wheel, clockwise: the point of the rim at angle \<open>a\<close> is
  \<open>(center + radius * sin a, center - radius * cos a)\<close>, the y axis of SVG pointing
  down. This function is not in the source; the results below compare what the source
  writes with it.
\<close>

definition spec_wedge :: "real \<Rightarrow> real \<Rightarrow> string \<Rightarrow> string \<Rightarrow> piece list" where
  \<open>spec_wedge a sweep color label =
     [Lit ''<path d="'',
      Lit ''M '', Num center, Lit '' '', Num center,
      Lit '' L '', Num (center + radius * sin (radians a)),
      Lit '' '', Num (center - radius * cos (radians a)),
      Lit '' A '', Num radius, Lit '' '', Num radius,
      Lit '' 0 '', Num (if sweep > 180 then 1 else 0), Lit '' 1 '',
      Num (center + radius * sin (radians (a + sweep))),
      Lit '' '', Num (center - radius * cos (radians (a + sweep))), Lit '' Z'',
      Lit ''" fill="'', Lit color, Lit ''" stroke="#fff" stroke-width="2"/>'',
      Lit ''<text x="'', Num (center + radius * 0.7 * sin (radians (a + sweep / 2))),
      Lit ''" y="'', Num (center - radius * 0.7 * cos (radians (a + sweep / 2))),
      Lit ''" font-size="14" font-weight="bold" text-anchor="middle" transform="rotate('',
      Num (a + sweep / 2),
      Lit '', '', Num (center + radius * 0.7 * sin (radians (a + sweep / 2))),
      Lit '', '', Num (center - radius * 0.7 * cos (radians (a + sweep / 2))),
      Lit '')" fill="#000">'', Lit label, Lit ''</text>'']\<close>

subsection \<open>Results about generate_wheel_svg\<close>

text \<open>
  C8. For the empty option list the renderer returns the empty SVG element and raises
  nothing, whatever the rotation and the highlight index are.
\<close>

theorem generate_wheel_svg_empty:
  "generate_wheel_svg [] rotation highlight_index = Inr [Lit ''<svg></svg>'']"
  by (simp add: generate_wheel_svg_def)

lemma draw_segment_zero: "draw_segment 0 h idx a r = Inl ZeroDivisionError"
  by (simp add: draw_segment_def)

lemma draw_segments_zero: "rs \<noteq> [] \<Longrightarrow> draw_segments 0 h idx a rs = Inl ZeroDivisionError"
  by (cases rs) (simp_all add: draw_segment_zero)

lemma draw_segment_Inr:
  "t \<noteq> 0 \<Longrightarrow> \<exists>seg. draw_segment t h idx a r = Inr seg"
  by (simp add: draw_segment_def Let_def)

lemma draw_segment_fields:
  assumes "draw_segment t h idx a r = Inr seg"
  shows "seg_angle seg = real_of_int (probability r) / real_of_int t * 360"
    and "seg_current_angle seg = a"
    and "seg_color seg = (if h = Some (int idx) then ''#FFD700'' else colors ! (idx mod length colors))"
    and "seg_text_rotation seg = a + seg_angle seg / 2"
  using assms by (auto simp: draw_segment_def Let_def split: if_splits)

lemma draw_segments_Inr:
  "t \<noteq> 0 \<Longrightarrow> \<exists>segs. draw_segments t h idx a rs = Inr segs"
proof (induction rs arbitrary: idx a)
  case Nil
  then show ?case by simp
next
  case (Cons r rs)
  from Cons.prems obtain seg where s: "draw_segment t h idx a r = Inr seg"
    using draw_segment_Inr by blast
  from Cons.IH [OF Cons.prems] obtain segs where
    "draw_segments t h (idx + 1) (a + seg_angle seg) rs = Inr segs" by blast
  with s show ?case by simp
qed

lemma draw_segments_length:
  "draw_segments t h idx a rs = Inr segs \<Longrightarrow> length segs = length rs"
  by (induction rs arbitrary: idx a segs) (auto split: sum.splits)

lemma wheel_segments_Inr:
  assumes "sum_list (map probability restaurants) \<noteq> 0"
  shows "\<exists>segs. wheel_segments restaurants h = Inr segs"
  using draw_segments_Inr [OF assms] by (simp add: wheel_segments_def)

lemma generate_wheel_svg_Inr:
  assumes "sum_list (map probability restaurants) \<noteq> 0"
  shows "\<exists>svg. generate_wheel_svg restaurants rotation h = Inr svg"
proof -
  from wheel_segments_Inr [OF assms] obtain segs where
    "wheel_segments restaurants h = Inr segs" by blast
  then show ?thesis by (simp add: generate_wheel_svg_def Let_def)
qed

lemma sum_list_probability_mset:
  assumes "mset rs' = mset rs"
  shows "sum_list (map probability rs') = sum_list (map probability rs)"
proof -
  have "mset (map probability rs') = mset (map probability rs)"
    using assms by simp
  then have "sum_mset (mset (map probability rs')) = sum_mset (mset (map probability rs))"
    by (rule arg_cong)
  then show ?thesis by (simp only: sum_mset_sum_list)
qed

lemma cos_radians_minus_90: "cos (radians (a - 90)) = sin (radians a)"
proof -
  have "radians (a - 90) = radians a - pi / 2"
    by (simp add: radians_def left_diff_distrib diff_divide_distrib)
  then show ?thesis by (simp add: cos_diff)
qed

lemma sin_radians_minus_90: "sin (radians (a - 90)) = - cos (radians a)"
proof -
  have "radians (a - 90) = radians a - pi / 2"
    by (simp add: radians_def left_diff_distrib diff_divide_distrib)
  then show ?thesis by (simp add: sin_diff)
qed

lemma draw_segment_svg:
  assumes "draw_segment t h idx a r = Inr seg"
  shows "segment_svg seg =
    spec_wedge a (real_of_int (probability r) / real_of_int t * 360)
      (if h = Some (int idx) then ''#FFD700'' else colors ! (idx mod length colors))
      (if length (name r) > 15 then take 13 (name r) @ ''...'' else name r)"
proof -
  from assms have t: "t \<noteq> 0"
    by (auto simp: draw_segment_def split: if_splits)
  have e: "cos (radians (a + x - 90)) = sin (radians (a + x))"
    "sin (radians (a + x - 90)) = - cos (radians (a + x))" for x
    using cos_radians_minus_90 [of "a + x"] sin_radians_minus_90 [of "a + x"] by simp_all
  from assms t have "seg = \<lparr> seg_current_angle = a,
      seg_angle = real_of_int (probability r) / real_of_int t * 360,
      seg_x1 = center + radius * cos (radians (a - 90)),
      seg_y1 = center + radius * sin (radians (a - 90)),
      seg_x2 = center + radius * cos (radians (a + real_of_int (probability r) / real_of_int t * 360 - 90)),
      seg_y2 = center + radius * sin (radians (a + real_of_int (probability r) / real_of_int t * 360 - 90)),
      seg_large_arc = (if real_of_int (probability r) / real_of_int t * 360 > 180 then 1 else 0),
      seg_color = (if h = Some (int idx) then ''#FFD700'' else colors ! (idx mod length colors)),
      seg_text_x = center + radius * 0.7 * cos (radians (a + real_of_int (probability r) / real_of_int t * 360 / 2 - 90)),
      seg_text_y = center + radius * 0.7 * sin (radians (a + real_of_int (probability r) / real_of_int t * 360 / 2 - 90)),
      seg_text_rotation = a + real_of_int (probability r) / real_of_int t * 360 / 2,
      seg_name = (if length (name r) > 15 then take 13 (name r) @ ''...'' else name r) \<rparr>"
    by (simp add: draw_segment_def Let_def)
  then show ?thesis
    by (simp add: segment_svg_def spec_wedge_def Let_def e cos_radians_minus_90
        sin_radians_minus_90)
qed

lemma draw_segments_svg_nth:
  "draw_segments t h idx a rs = Inr segs \<Longrightarrow> i < length rs \<Longrightarrow>
   segment_svg (segs ! i) =
     spec_wedge
       (a + sum_list (map (\<lambda>r. real_of_int (probability r) / real_of_int t * 360) (take i rs)))
       (real_of_int (probability (rs ! i)) / real_of_int t * 360)
       (if h = Some (int (idx + i)) then ''#FFD700'' else colors ! ((idx + i) mod length colors))
       (if length (name (rs ! i)) > 15 then take 13 (name (rs ! i)) @ ''...'' else name (rs ! i))"
proof (induction rs arbitrary: idx a segs i)
  case Nil
  then show ?case by simp
next
  case (Cons r rs)
  from Cons.prems(1) obtain seg rest where
    s: "draw_segment t h idx a r = Inr seg" and
    r: "draw_segments t h (idx + 1) (a + seg_angle seg) rs = Inr rest" and
    e: "segs = seg # rest"
    by (auto split: sum.splits)
  show ?case
  proof (cases i)
    case 0
    with e draw_segment_svg [OF s] show ?thesis by simp
  next
    case (Suc j)
    with Cons.prems(2) have "j < length rs" by simp
    from Cons.IH [OF r this] Suc e draw_segment_fields(1) [OF s] show ?thesis
      by (simp add: add.assoc)
  qed
qed

lemma generate_wheel_svg_wedges:
  assumes "restaurants \<noteq> []" and "sum_list (map probability restaurants) \<noteq> 0"
  shows "generate_wheel_svg restaurants rotation highlight_index =
    Inr (svg_prefix rotation @
         concat (map (\<lambda>i. spec_wedge
             (sum_list (map (\<lambda>r. real_of_int (probability r) /
                 real_of_int (sum_list (map probability restaurants)) * 360) (take i restaurants)))
             (real_of_int (probability (restaurants ! i)) /
                 real_of_int (sum_list (map probability restaurants)) * 360)
             (if highlight_index = Some (int i) then ''#FFD700''
              else colors ! (i mod length colors))
             (if length (name (restaurants ! i)) > 15
              then take 13 (name (restaurants ! i)) @ ''...''
              else name (restaurants ! i)))
           [0..<length restaurants]) @
         svg_suffix)"
proof -
  let ?t = "sum_list (map probability restaurants)"
  let ?w = "\<lambda>i. spec_wedge
      (sum_list (map (\<lambda>r. real_of_int (probability r) / real_of_int ?t * 360) (take i restaurants)))
      (real_of_int (probability (restaurants ! i)) / real_of_int ?t * 360)
      (if highlight_index = Some (int i) then ''#FFD700'' else colors ! (i mod length colors))
      (if length (name (restaurants ! i)) > 15 then take 13 (name (restaurants ! i)) @ ''...''
       else name (restaurants ! i))"
  from draw_segments_Inr [OF assms(2)] obtain segs where
    d: "draw_segments ?t highlight_index 0 0 restaurants = Inr segs" by blast
  have l: "length segs = length restaurants"
    using d by (rule draw_segments_length)
  have m: "map segment_svg segs = map ?w [0..<length restaurants]"
  proof (rule nth_equalityI)
    show "length (map segment_svg segs) = length (map ?w [0..<length restaurants])"
      using l by simp
    fix i
    assume "i < length (map segment_svg segs)"
    with l have i: "i < length restaurants" by simp
    from draw_segments_svg_nth [OF d i] i l
    show "map segment_svg segs ! i = map ?w [0..<length restaurants] ! i"
      by simp
  qed
  have "wheel_segments restaurants highlight_index = Inr segs"
    using d by (simp add: wheel_segments_def)
  then have "generate_wheel_svg restaurants rotation highlight_index =
      Inr (svg_prefix rotation @ concat (map segment_svg segs) @ svg_suffix)"
    using assms(1) by (simp add: generate_wheel_svg_def Let_def svg_prefix_def svg_suffix_def)
  then show ?thesis by (simp only: m)
qed

lemma sum_list_sweeps:
  "sum_list (map (\<lambda>r. real_of_int (probability r) / real_of_int t * 360) rs) =
   real_of_int (sum_list (map probability rs)) / real_of_int t * 360"
  by (induction rs) (simp_all add: add_divide_distrib distrib_right)

lemma wedges_by_lists:
  assumes "\<And>i. i < n \<Longrightarrow> starts ! i = a i" and "\<And>i. i < n \<Longrightarrow> sweeps ! i = b i"
  shows "map (\<lambda>i. spec_wedge (a i) (b i) (c i) (d i)) [0..<n] =
         map (\<lambda>i. spec_wedge (starts ! i) (sweeps ! i) (c i) (d i)) [0..<n]"
  using assms by (intro map_cong) simp_all

lemma wheel_layout:
  assumes "restaurants \<noteq> []" and "0 < sum_list (map probability restaurants)"
  shows "\<exists>starts sweeps.
           length starts = length restaurants \<and> length sweeps = length restaurants \<and>
           generate_wheel_svg restaurants rotation highlight_index =
             Inr (svg_prefix rotation @
                  concat (map (\<lambda>i. spec_wedge (starts ! i) (sweeps ! i)
                      (if highlight_index = Some (int i) then ''#FFD700''
                       else colors ! (i mod length colors))
                      (if length (name (restaurants ! i)) > 15
                       then take 13 (name (restaurants ! i)) @ ''...''
                       else name (restaurants ! i)))
                    [0..<length restaurants]) @
                  svg_suffix) \<and>
           (\<forall>i<length restaurants.
              sweeps ! i =
                (real_of_int (probability (restaurants ! i)) /
                 real_of_int (sum_list (map probability restaurants))) * 360) \<and>
           starts ! 0 = 0 \<and>
           (\<forall>i. Suc i < length restaurants \<longrightarrow> starts ! Suc i = starts ! i + sweeps ! i) \<and>
           sum_list sweeps = 360"
proof -
  let ?n = "length restaurants"
  let ?t = "sum_list (map probability restaurants)"
  let ?f = "\<lambda>r. real_of_int (probability r) / real_of_int ?t * 360"
  let ?a = "\<lambda>i. sum_list (map ?f (take i restaurants))"
  define sweeps where "sweeps = map ?f restaurants"
  define starts where "starts = map ?a [0..<?n]"
  from assms(2) have t: "?t \<noteq> 0" by simp
  have ls: "length starts = ?n" and lw: "length sweeps = ?n"
    by (simp_all add: starts_def sweeps_def)
  have sa: "starts ! i = ?a i" if "i < ?n" for i
    using that by (simp add: starts_def)
  have sw: "sweeps ! i = ?f (restaurants ! i)" if "i < ?n" for i
    using that by (simp add: sweeps_def)
  have "generate_wheel_svg restaurants rotation highlight_index =
      Inr (svg_prefix rotation @
           concat (map (\<lambda>i. spec_wedge (starts ! i) (sweeps ! i)
               (if highlight_index = Some (int i) then ''#FFD700''
                else colors ! (i mod length colors))
               (if length (name (restaurants ! i)) > 15
                then take 13 (name (restaurants ! i)) @ ''...''
                else name (restaurants ! i)))
             [0..<?n]) @
           svg_suffix)"
    using generate_wheel_svg_wedges [OF assms(1) t, of rotation highlight_index]
    by (simp only: wedges_by_lists [of ?n starts ?a sweeps "\<lambda>i. ?f (restaurants ! i)", OF sa sw])
  moreover have "\<forall>i<?n. sweeps ! i = ?f (restaurants ! i)"
    using sw by simp
  moreover have "starts ! 0 = 0"
    using assms(1) sa [of 0] by simp
  moreover have "\<forall>i. Suc i < ?n \<longrightarrow> starts ! Suc i = starts ! i + sweeps ! i"
  proof (intro allI impI)
    fix i
    assume i: "Suc i < ?n"
    then have "take (Suc i) restaurants = take i restaurants @ [restaurants ! i]"
      by (simp add: take_Suc_conv_app_nth)
    then have "?a (Suc i) = ?a i + ?f (restaurants ! i)" by simp
    with i sa [of "Suc i"] sa [of i] sw [of i] show "starts ! Suc i = starts ! i + sweeps ! i"
      by simp
  qed
  moreover have "sum_list sweeps = 360"
  proof -
    have "sum_list sweeps = real_of_int ?t / real_of_int ?t * 360"
      unfolding sweeps_def by (rule sum_list_sweeps)
    with t show ?thesis by simp
  qed
  ultimately show ?thesis using ls lw by blast
qed

text \<open>
  C5. For a list of options that is not empty and has a positive total weight, the
  text \<open>generate_wheel_svg\<close> returns holds, between its fixed opening and closing
  parts, one wedge per option in list order. The wedge of option \<open>i\<close> runs from the
  angle \<open>starts ! i\<close> through the sweep \<open>sweeps ! i\<close> (start point, end point and
  large-arc flag as \<open>spec_wedge\<close> writes them, angle 0 at the top, growing clockwise),
  where the sweep is (weight / total weight) * 360, the first wedge starts at angle 0,
  every later one starts where the one before it ends, and the sweeps add up to 360.
\<close>

theorem generate_wheel_svg_geometry:
  assumes "restaurants \<noteq> []" and "0 < sum_list (map probability restaurants)"
  shows "\<exists>starts sweeps.
           length starts = length restaurants \<and> length sweeps = length restaurants \<and>
           generate_wheel_svg restaurants rotation highlight_index =
             Inr (svg_prefix rotation @
                  concat (map (\<lambda>i. spec_wedge (starts ! i) (sweeps ! i)
                      (if highlight_index = Some (int i) then ''#FFD700''
                       else colors ! (i mod length colors))
                      (if length (name (restaurants ! i)) > 15
                       then take 13 (name (restaurants ! i)) @ ''...''
                       else name (restaurants ! i)))
                    [0..<length restaurants]) @
                  svg_suffix) \<and>
           (\<forall>i<length restaurants.
              sweeps ! i =
                (real_of_int (probability (restaurants ! i)) /
                 real_of_int (sum_list (map probability restaurants))) * 360) \<and>
           starts ! 0 = 0 \<and>
           (\<forall>i. Suc i < length restaurants \<longrightarrow> starts ! Suc i = starts ! i + sweeps ! i) \<and>
           sum_list sweeps = 360"
  using assms by (rule wheel_layout)

text \<open>
  The example of the specification, as an instance of the theorem: for A, B and C with
  weights 10, 10 and 80 the text returned holds the wedges from 0 sweeping 36, from 36
  sweeping 36 and from 72 sweeping 288, the last one ending at 360.
\<close>

theorem generate_wheel_svg_geometry_witness:
  "[\<lparr>name = ''A'', probability = 10\<rparr>, \<lparr>name = ''B'', probability = 10\<rparr>,
    \<lparr>name = ''C'', probability = 80\<rparr>] \<noteq> [] \<and>
   0 < sum_list (map probability [\<lparr>name = ''A'', probability = 10\<rparr>,
         \<lparr>name = ''B'', probability = 10\<rparr>, \<lparr>name = ''C'', probability = 80\<rparr>]) \<and>
   generate_wheel_svg [\<lparr>name = ''A'', probability = 10\<rparr>, \<lparr>name = ''B'', probability = 10\<rparr>,
         \<lparr>name = ''C'', probability = 80\<rparr>] 0 None =
     Inr (svg_prefix 0 @
          spec_wedge 0 36 ''#FF6B6B'' ''A'' @
          spec_wedge 36 36 ''#4ECDC4'' ''B'' @
          spec_wedge 72 288 ''#45B7D1'' ''C'' @
          svg_suffix) \<and>
   (72 :: real) + 288 = 360"
proof -
  let ?rs = "[\<lparr>name = ''A'', probability = 10\<rparr>, \<lparr>name = ''B'', probability = 10\<rparr>,
    \<lparr>name = ''C'', probability = 80\<rparr>]"
  have h1: "?rs \<noteq> []" by simp
  have h2: "0 < sum_list (map probability ?rs)" by simp
  from generate_wheel_svg_geometry [OF h1 h2, of 0 None] obtain starts sweeps where
    g: "generate_wheel_svg ?rs 0 None =
      Inr (svg_prefix 0 @
           concat (map (\<lambda>i. spec_wedge (starts ! i) (sweeps ! i)
               (if None = Some (int i) then ''#FFD700'' else colors ! (i mod length colors))
               (if length (name (?rs ! i)) > 15 then take 13 (name (?rs ! i)) @ ''...''
                else name (?rs ! i)))
             [0..<length ?rs]) @
           svg_suffix)"
    and w: "\<forall>i<length ?rs. sweeps ! i =
      (real_of_int (probability (?rs ! i)) / real_of_int (sum_list (map probability ?rs))) * 360"
    and z: "starts ! 0 = 0"
    and c: "\<forall>i. Suc i < length ?rs \<longrightarrow> starts ! Suc i = starts ! i + sweeps ! i"
    by blast
  from w [rule_format, of 0] w [rule_format, of 1] w [rule_format, of 2]
  have sw: "sweeps ! 0 = 36" "sweeps ! 1 = 36" "sweeps ! 2 = 288"
    by simp_all
  from c [rule_format, of 0] z sw have s1: "starts ! 1 = 36" by simp
  from c [rule_format, of 1] s1 sw have s2: "starts ! 2 = 72"
    by (simp add: numeral_2_eq_2)
  have u: "[0..<length ?rs] = [0, 1, 2]"
    by (simp add: upt_rec)
  have "generate_wheel_svg ?rs 0 None =
      Inr (svg_prefix 0 @ spec_wedge 0 36 ''#FF6B6B'' ''A'' @ spec_wedge 36 36 ''#4ECDC4'' ''B'' @
           spec_wedge 72 288 ''#45B7D1'' ''C'' @ svg_suffix)"
  proof -
    from s1 sw have "starts ! Suc 0 = 36" "sweeps ! Suc 0 = 36" by simp_all
    then show ?thesis
      unfolding g u by (simp add: z s2 sw colors_def)
  qed
  with h1 h2 show ?thesis by simp
qed

lemma list_eq_map_nth:
  assumes "length xs = length rs" and "\<forall>i<length rs. xs ! i = f (rs ! i)"
  shows "xs = map f rs"
  using assms by (intro nth_equalityI) simp_all

lemma zip_map_self: "zip rs (map f rs) = map (\<lambda>r. (r, f r)) rs"
  by (induction rs) simp_all

text \<open>
  C9. The renderer is order-stable. When a list of options with positive total weight
  is permuted, the text returned for either list holds one wedge per option, and the
  wedge of an option sweeps its weight / total weight * 360 in both, the total being
  the same; an option found in both lists has the same sweep in both, and the options
  paired with their sweeps are the same multiset. The starting angles follow the
  order of each list: 0 for its first wedge, then each where the one before it ends.
\<close>

theorem generate_wheel_svg_order_stable:
  assumes "mset restaurants' = mset restaurants"
    and "0 < sum_list (map probability restaurants)"
  shows "\<exists>starts sweeps starts' sweeps'.
           length sweeps = length restaurants \<and> length sweeps' = length restaurants' \<and>
           generate_wheel_svg restaurants rotation h =
             Inr (svg_prefix rotation @
                  concat (map (\<lambda>i. spec_wedge (starts ! i) (sweeps ! i)
                      (if h = Some (int i) then ''#FFD700'' else colors ! (i mod length colors))
                      (if length (name (restaurants ! i)) > 15
                       then take 13 (name (restaurants ! i)) @ ''...''
                       else name (restaurants ! i)))
                    [0..<length restaurants]) @
                  svg_suffix) \<and>
           generate_wheel_svg restaurants' rotation' h' =
             Inr (svg_prefix rotation' @
                  concat (map (\<lambda>j. spec_wedge (starts' ! j) (sweeps' ! j)
                      (if h' = Some (int j) then ''#FFD700'' else colors ! (j mod length colors))
                      (if length (name (restaurants' ! j)) > 15
                       then take 13 (name (restaurants' ! j)) @ ''...''
                       else name (restaurants' ! j)))
                    [0..<length restaurants']) @
                  svg_suffix) \<and>
           (\<forall>i<length restaurants.
              sweeps ! i =
                real_of_int (probability (restaurants ! i)) /
                real_of_int (sum_list (map probability restaurants)) * 360) \<and>
           (\<forall>j<length restaurants'.
              sweeps' ! j =
                real_of_int (probability (restaurants' ! j)) /
                real_of_int (sum_list (map probability restaurants)) * 360) \<and>
           (\<forall>i<length restaurants. \<forall>j<length restaurants'.
              restaurants' ! j = restaurants ! i \<longrightarrow> sweeps' ! j = sweeps ! i) \<and>
           mset (zip restaurants' sweeps') = mset (zip restaurants sweeps) \<and>
           starts ! 0 = 0 \<and> starts' ! 0 = 0 \<and>
           (\<forall>i. Suc i < length restaurants \<longrightarrow> starts ! Suc i = starts ! i + sweeps ! i) \<and>
           (\<forall>j. Suc j < length restaurants' \<longrightarrow> starts' ! Suc j = starts' ! j + sweeps' ! j)"
proof -
  let ?t = "sum_list (map probability restaurants)"
  let ?f = "\<lambda>r. real_of_int (probability r) / real_of_int ?t * 360"
  have t': "sum_list (map probability restaurants') = ?t"
    using assms(1) by (rule sum_list_probability_mset)
  from assms(2) have ne: "restaurants \<noteq> []" by auto
  with assms(1) have ne': "restaurants' \<noteq> []" by auto
  from assms(2) t' have pos': "0 < sum_list (map probability restaurants')" by simp
  from wheel_layout [OF ne assms(2), of rotation h] obtain starts sweeps where
    l: "length sweeps = length restaurants"
    and g: "generate_wheel_svg restaurants rotation h =
      Inr (svg_prefix rotation @
           concat (map (\<lambda>i. spec_wedge (starts ! i) (sweeps ! i)
               (if h = Some (int i) then ''#FFD700'' else colors ! (i mod length colors))
               (if length (name (restaurants ! i)) > 15
                then take 13 (name (restaurants ! i)) @ ''...''
                else name (restaurants ! i)))
             [0..<length restaurants]) @
           svg_suffix)"
    and w: "\<forall>i<length restaurants. sweeps ! i = ?f (restaurants ! i)"
    and z: "starts ! 0 = 0"
    and c: "\<forall>i. Suc i < length restaurants \<longrightarrow> starts ! Suc i = starts ! i + sweeps ! i"
    by blast
  from wheel_layout [OF ne' pos', of rotation' h'] obtain starts' sweeps' where
    l': "length sweeps' = length restaurants'"
    and g': "generate_wheel_svg restaurants' rotation' h' =
      Inr (svg_prefix rotation' @
           concat (map (\<lambda>j. spec_wedge (starts' ! j) (sweeps' ! j)
               (if h' = Some (int j) then ''#FFD700'' else colors ! (j mod length colors))
               (if length (name (restaurants' ! j)) > 15
                then take 13 (name (restaurants' ! j)) @ ''...''
                else name (restaurants' ! j)))
             [0..<length restaurants']) @
           svg_suffix)"
    and w0: "\<forall>j<length restaurants'. sweeps' ! j =
      real_of_int (probability (restaurants' ! j)) /
      real_of_int (sum_list (map probability restaurants')) * 360"
    and z': "starts' ! 0 = 0"
    and c': "\<forall>j. Suc j < length restaurants' \<longrightarrow> starts' ! Suc j = starts' ! j + sweeps' ! j"
    by blast
  from w0 have w': "\<forall>j<length restaurants'. sweeps' ! j = ?f (restaurants' ! j)"
    by (simp only: t')
  have e: "\<forall>i<length restaurants. \<forall>j<length restaurants'.
      restaurants' ! j = restaurants ! i \<longrightarrow> sweeps' ! j = sweeps ! i"
    using w w' by simp
  have m: "sweeps = map ?f restaurants"
    using l w by (rule list_eq_map_nth)
  have m': "sweeps' = map ?f restaurants'"
    using l' w' by (rule list_eq_map_nth)
  have p: "mset (zip restaurants' sweeps') = mset (zip restaurants sweeps)"
    by (simp only: m m' zip_map_self mset_map assms(1))
  from l l' g g' w w' e p z z' c c' show ?thesis by blast
qed

text \<open>
  An instance: moving C to the front keeps the sweeps 36, 36 and 288 with their options
  and moves the starting angles from 0, 36, 72 (A, B, C) to 288, 324, 0.
\<close>

theorem generate_wheel_svg_order_stable_witness:
  "mset [\<lparr>name = ''C'', probability = 80\<rparr>, \<lparr>name = ''A'', probability = 10\<rparr>,
         \<lparr>name = ''B'', probability = 10\<rparr>] =
   mset [\<lparr>name = ''A'', probability = 10\<rparr>, \<lparr>name = ''B'', probability = 10\<rparr>,
         \<lparr>name = ''C'', probability = 80\<rparr>] \<and>
   0 < sum_list (map probability [\<lparr>name = ''A'', probability = 10\<rparr>,
         \<lparr>name = ''B'', probability = 10\<rparr>, \<lparr>name = ''C'', probability = 80\<rparr>]) \<and>
   generate_wheel_svg [\<lparr>name = ''A'', probability = 10\<rparr>, \<lparr>name = ''B'', probability = 10\<rparr>,
         \<lparr>name = ''C'', probability = 80\<rparr>] 0 None =
     Inr (svg_prefix 0 @
          spec_wedge 0 36 ''#FF6B6B'' ''A'' @
          spec_wedge 36 36 ''#4ECDC4'' ''B'' @
          spec_wedge 72 288 ''#45B7D1'' ''C'' @
          svg_suffix) \<and>
   generate_wheel_svg [\<lparr>name = ''C'', probability = 80\<rparr>, \<lparr>name = ''A'', probability = 10\<rparr>,
         \<lparr>name = ''B'', probability = 10\<rparr>] 0 None =
     Inr (svg_prefix 0 @
          spec_wedge 0 288 ''#FF6B6B'' ''C'' @
          spec_wedge 288 36 ''#4ECDC4'' ''A'' @
          spec_wedge 324 36 ''#45B7D1'' ''B'' @
          svg_suffix)"
proof -
  let ?rs = "[\<lparr>name = ''A'', probability = 10\<rparr>, \<lparr>name = ''B'', probability = 10\<rparr>,
    \<lparr>name = ''C'', probability = 80\<rparr>]"
  let ?rs' = "[\<lparr>name = ''C'', probability = 80\<rparr>, \<lparr>name = ''A'', probability = 10\<rparr>,
    \<lparr>name = ''B'', probability = 10\<rparr>]"
  have h1: "mset ?rs' = mset ?rs" by simp
  have h2: "0 < sum_list (map probability ?rs)" by simp
  from generate_wheel_svg_order_stable [OF h1 h2, of 0 None 0 None]
  obtain starts sweeps starts' sweeps' where
    g: "generate_wheel_svg ?rs 0 None =
      Inr (svg_prefix 0 @
           concat (map (\<lambda>i. spec_wedge (starts ! i) (sweeps ! i)
               (if None = Some (int i) then ''#FFD700'' else colors ! (i mod length colors))
               (if length (name (?rs ! i)) > 15 then take 13 (name (?rs ! i)) @ ''...''
                else name (?rs ! i)))
             [0..<length ?rs]) @
           svg_suffix)"
    and g': "generate_wheel_svg ?rs' 0 None =
      Inr (svg_prefix 0 @
           concat (map (\<lambda>j. spec_wedge (starts' ! j) (sweeps' ! j)
               (if None = Some (int j) then ''#FFD700'' else colors ! (j mod length colors))
               (if length (name (?rs' ! j)) > 15 then take 13 (name (?rs' ! j)) @ ''...''
                else name (?rs' ! j)))
             [0..<length ?rs']) @
           svg_suffix)"
    and w: "\<forall>i<length ?rs. sweeps ! i =
      real_of_int (probability (?rs ! i)) / real_of_int (sum_list (map probability ?rs)) * 360"
    and w': "\<forall>j<length ?rs'. sweeps' ! j =
      real_of_int (probability (?rs' ! j)) / real_of_int (sum_list (map probability ?rs)) * 360"
    and z: "starts ! 0 = 0" and z': "starts' ! 0 = 0"
    and c: "\<forall>i. Suc i < length ?rs \<longrightarrow> starts ! Suc i = starts ! i + sweeps ! i"
    and c': "\<forall>j. Suc j < length ?rs' \<longrightarrow> starts' ! Suc j = starts' ! j + sweeps' ! j"
    by blast
  from w [rule_format, of 0] w [rule_format, of 1] w [rule_format, of 2]
  have sw: "sweeps ! 0 = 36" "sweeps ! 1 = 36" "sweeps ! 2 = 288"
    by simp_all
  from w' [rule_format, of 0] w' [rule_format, of 1] w' [rule_format, of 2]
  have sw': "sweeps' ! 0 = 288" "sweeps' ! 1 = 36" "sweeps' ! 2 = 36"
    by simp_all
  from c [rule_format, of 0] z sw have s1: "starts ! 1 = 36" by simp
  from c [rule_format, of 1] s1 sw have s2: "starts ! 2 = 72"
    by (simp add: numeral_2_eq_2)
  from c' [rule_format, of 0] z' sw' have s1': "starts' ! 1 = 288" by simp
  from c' [rule_format, of 1] s1' sw' have s2': "starts' ! 2 = 324"
    by (simp add: numeral_2_eq_2)
  have u: "[0..<length ?rs] = [0, 1, 2]" "[0..<length ?rs'] = [0, 1, 2]"
    by (simp_all add: upt_rec)
  from s1 sw s1' sw' have o: "starts ! Suc 0 = 36" "sweeps ! Suc 0 = 36"
    "starts' ! Suc 0 = 288" "sweeps' ! Suc 0 = 36"
    by simp_all
  have a: "generate_wheel_svg ?rs 0 None =
      Inr (svg_prefix 0 @ spec_wedge 0 36 ''#FF6B6B'' ''A'' @ spec_wedge 36 36 ''#4ECDC4'' ''B'' @
           spec_wedge 72 288 ''#45B7D1'' ''C'' @ svg_suffix)"
    unfolding g u by (simp add: z s2 sw o colors_def)
  have b: "generate_wheel_svg ?rs' 0 None =
      Inr (svg_prefix 0 @ spec_wedge 0 288 ''#FF6B6B'' ''C'' @ spec_wedge 288 36 ''#4ECDC4'' ''A'' @
           spec_wedge 324 36 ''#45B7D1'' ''B'' @ svg_suffix)"
    unfolding g' u by (simp add: z' s2' sw' o colors_def)
  from a b h1 h2 show ?thesis by simp
qed

text \<open>
  C3. The claim is that drawing a wheel whose weights add up to zero does not raise a
  division by zero. The code does raise it: \<open>generate_wheel_svg\<close> divides the first
  weight by \<open>total_prob\<close> without the check \<open>spin_wheel\<close> makes. Evaluated for two
  options of weight 0, at any rotation and highlight:
\<close>

theorem generate_wheel_svg_zero_total:
  "generate_wheel_svg [\<lparr>name = ''A'', probability = 0\<rparr>, \<lparr>name = ''B'', probability = 0\<rparr>]
     rotation highlight_index = Inl ZeroDivisionError"
  by (simp add: generate_wheel_svg_def wheel_segments_def draw_segment_def)

text \<open>
  C10. The claim is that for every list of options that is not empty the renderer
  raises nothing when the highlight index is absent or out of range, and colours the
  segments by the palette, one segment overridden by an index in range. For a list
  whose weights add up to zero the code raises before any colour is chosen, whatever
  the highlight index is: it is the division by \<open>total_prob\<close> of C3, without the
  check \<open>spin_wheel\<close> makes. Evaluated for one option of weight 0, with no highlight
  index, with the index 5 out of range and with the index 0 in range:
\<close>

theorem highlight_zero_total_raises:
  "generate_wheel_svg [\<lparr>name = ''A'', probability = 0\<rparr>] 0 None = Inl ZeroDivisionError \<and>
   generate_wheel_svg [\<lparr>name = ''A'', probability = 0\<rparr>] 0 (Some 5) = Inl ZeroDivisionError \<and>
   generate_wheel_svg [\<lparr>name = ''A'', probability = 0\<rparr>] 0 (Some 0) = Inl ZeroDivisionError"
  by (simp add: generate_wheel_svg_def wheel_segments_def draw_segment_def)

subsection \<open>Results about spin_wheel\<close>

lemma divide_all_Inr:
  "t \<noteq> 0 \<Longrightarrow> divide_all ws t = Inr (map (\<lambda>w. real_of_int w / real_of_int t) ws)"
  by (induction ws) simp_all

lemma sum_list_divide:
  "sum_list (map (\<lambda>w. real_of_int w / real_of_int t) ws) = real_of_int (sum_list ws) / real_of_int t"
  by (induction ws) (simp_all add: add_divide_distrib)

lemma substituted_total_nonzero:
  assumes "restaurants \<noteq> []" and "substituted_weights restaurants = (ws, t)"
  shows "t \<noteq> 0 \<and> sum_list ws = t \<and> length ws = length restaurants"
  using assms by (auto simp: substituted_weights_def Let_def sum_list_replicate split: if_splits)

lemma normalized_weights_Inr:
  assumes "restaurants \<noteq> []"
  shows "\<exists>ws. normalized_weights restaurants = Inr ws \<and> length ws = length restaurants \<and>
           sum_list ws = 1"
proof -
  obtain ws t where st: "substituted_weights restaurants = (ws, t)"
    by (cases "substituted_weights restaurants")
  from substituted_total_nonzero [OF assms st] have t: "t \<noteq> 0" and s: "sum_list ws = t"
    and l: "length ws = length restaurants"
    by simp_all
  have "normalized_weights restaurants = Inr (map (\<lambda>w. real_of_int w / real_of_int t) ws)"
    by (simp add: normalized_weights_def st divide_all_Inr [OF t])
  moreover have "sum_list (map (\<lambda>w. real_of_int w / real_of_int t) ws) = 1"
    using t s by (simp add: sum_list_divide)
  ultimately show ?thesis using l by simp
qed

lemma length_accumulate_from: "length (accumulate_from acc ws) = length ws"
  by (induction ws arbitrary: acc) simp_all

lemma last_accumulate_from:
  "ws \<noteq> [] \<Longrightarrow> last (accumulate_from acc ws) = acc + sum_list ws"
proof (induction ws arbitrary: acc)
  case Nil
  then show ?case by simp
next
  case (Cons w ws)
  show ?case
  proof (cases ws)
    case Nil
    then show ?thesis by simp
  next
    case (Cons v vs)
    then have "ws \<noteq> []" by simp
    from Cons.IH [OF this, of "acc + w"] Cons show ?thesis by (simp add: add.assoc)
  qed
qed

lemma length_accumulate: "length (accumulate ws) = length ws"
  by (cases ws) (simp_all add: accumulate_def length_accumulate_from)

lemma last_accumulate: "ws \<noteq> [] \<Longrightarrow> last (accumulate ws) = sum_list ws"
proof (cases ws)
  case Nil
  assume "ws \<noteq> []"
  with Nil show ?thesis by simp
next
  case (Cons w vs)
  show ?thesis
  proof (cases vs)
    case Nil
    with Cons show ?thesis by (simp add: accumulate_def)
  next
    case (Cons v us)
    then have "vs \<noteq> []" by simp
    from last_accumulate_from [OF this, of w] \<open>ws = w # vs\<close> Cons show ?thesis
      by (simp add: accumulate_def)
  qed
qed

lemma bisect_bounds: "lo \<le> hi \<Longrightarrow> lo \<le> bisect a x lo hi \<and> bisect a x lo hi \<le> hi"
proof (induction a x lo hi rule: bisect.induct)
  case (1 a x lo hi)
  show ?case
  proof (cases "lo < hi")
    case False
    with "1.prems" show ?thesis by simp
  next
    case True
    define mid where "mid = (lo + hi) div 2"
    from True have m: "lo \<le> mid" "mid < hi" by (simp_all add: mid_def)
    show ?thesis
    proof (cases "x < a ! mid")
      case left: True
      from "1.IH"(1) [OF True mid_def left] m
      have "lo \<le> bisect a x lo mid \<and> bisect a x lo mid \<le> mid" by simp
      moreover have "bisect a x lo hi = bisect a x lo mid"
        using True left by (subst bisect.simps) (simp add: mid_def Let_def)
      ultimately show ?thesis using m by simp
    next
      case right: False
      from "1.IH"(2) [OF True mid_def right] m
      have "mid + 1 \<le> bisect a x (mid + 1) hi \<and> bisect a x (mid + 1) hi \<le> hi" by simp
      moreover have "bisect a x lo hi = bisect a x (mid + 1) hi"
        using True right by (subst bisect.simps) (simp add: mid_def Let_def)
      ultimately show ?thesis using m by simp
    qed
  qed
qed

lemma choices_Inr:
  assumes "population \<noteq> []" and "length weights = length population" and "0 < sum_list weights"
  shows "\<exists>i<length population. choices u population weights = Inr (population ! i)"
proof -
  let ?cum = "accumulate weights"
  let ?n = "length population"
  from assms(1,2) have w: "weights \<noteq> []" by auto
  have l: "length ?cum = ?n"
    by (simp add: length_accumulate assms(2))
  with assms(1) have ne: "?cum \<noteq> []" by auto
  have t: "last ?cum = sum_list weights"
    using w by (rule last_accumulate)
  let ?i = "bisect ?cum (u * last ?cum) 0 (?n - 1)"
  from bisect_bounds [of 0 "?n - 1" ?cum "u * last ?cum"] have "?i \<le> ?n - 1" by simp
  with assms(1) have i: "?i < ?n" by (cases population) simp_all
  have "choices u population weights = Inr (population ! ?i)"
    using l ne t assms(3) by (simp add: choices_def Let_def)
  with i show ?thesis by blast
qed

lemma spin_wheel_Inr:
  assumes "restaurants \<noteq> []"
  shows "\<exists>i<length restaurants. spin_wheel u restaurants = Inr (Some (name (restaurants ! i)))"
proof -
  from normalized_weights_Inr [OF assms] obtain ws where
    n: "normalized_weights restaurants = Inr ws" and l: "length ws = length restaurants"
    and s: "sum_list ws = 1" by blast
  have "map name restaurants \<noteq> []" using assms by simp
  moreover have "length ws = length (map name restaurants)" using l by simp
  moreover have "0 < sum_list ws" using s by simp
  ultimately obtain i where i: "i < length (map name restaurants)"
    and c: "choices u (map name restaurants) ws = Inr (map name restaurants ! i)"
    using choices_Inr by blast
  from i have i': "i < length restaurants" by simp
  with c have "choices u (map name restaurants) ws = Inr (name (restaurants ! i))" by simp
  with n assms have "spin_wheel u restaurants = Inr (Some (name (restaurants ! i)))"
    by (simp add: spin_wheel_def)
  with i' show ?thesis by blast
qed

lemma divide_all_replicate:
  "n \<noteq> 0 \<Longrightarrow> divide_all (replicate m 1) (int n) = Inr (replicate m (1 / real n))"
  by (induction m) simp_all

text \<open>
  C4. For a list of \<open>k\<close> options that is not empty and whose weights add up to zero,
  \<open>spin_wheel\<close> replaces every weight by 1 and the total by \<open>k\<close> before it
  normalizes, so every normalized weight is exactly \<open>1 / k\<close>; no division by zero
  occurs and the call returns the name of one of the options.
\<close>

theorem spin_wheel_zero_total_uniform:
  assumes "restaurants \<noteq> []" and "sum_list (map probability restaurants) = 0"
  shows "substituted_weights restaurants =
           (replicate (length restaurants) 1, int (length restaurants)) \<and>
         normalized_weights restaurants =
           Inr (replicate (length restaurants) (1 / real (length restaurants))) \<and>
         (\<exists>i<length restaurants. spin_wheel u restaurants = Inr (Some (name (restaurants ! i))))"
proof -
  have s: "substituted_weights restaurants =
      (replicate (length restaurants) 1, int (length restaurants))"
    using assms(2) by (simp add: substituted_weights_def)
  have "length restaurants \<noteq> 0" using assms(1) by simp
  then have "normalized_weights restaurants =
      Inr (replicate (length restaurants) (1 / real (length restaurants)))"
    by (simp add: normalized_weights_def s divide_all_replicate)
  with s spin_wheel_Inr [OF assms(1)] show ?thesis by simp
qed

text \<open>
  An instance: two options of weight 0 get the weights 1/2 and 1/2; the draw 1/4
  selects the first and the draw 3/4 the second.
\<close>

theorem spin_wheel_zero_total_uniform_witness:
  "[\<lparr>name = ''A'', probability = 0\<rparr>, \<lparr>name = ''B'', probability = 0\<rparr>] \<noteq> [] \<and>
   sum_list (map probability [\<lparr>name = ''A'', probability = 0\<rparr>, \<lparr>name = ''B'', probability = 0\<rparr>]) = 0 \<and>
   substituted_weights [\<lparr>name = ''A'', probability = 0\<rparr>, \<lparr>name = ''B'', probability = 0\<rparr>] = ([1, 1], 2) \<and>
   normalized_weights [\<lparr>name = ''A'', probability = 0\<rparr>, \<lparr>name = ''B'', probability = 0\<rparr>] =
     Inr [1 / 2, 1 / 2] \<and>
   spin_wheel (1 / 4) [\<lparr>name = ''A'', probability = 0\<rparr>, \<lparr>name = ''B'', probability = 0\<rparr>] =
     Inr (Some ''A'') \<and>
   spin_wheel (3 / 4) [\<lparr>name = ''A'', probability = 0\<rparr>, \<lparr>name = ''B'', probability = 0\<rparr>] =
     Inr (Some ''B'')"
proof -
  let ?rs = "[\<lparr>name = ''A'', probability = 0\<rparr>, \<lparr>name = ''B'', probability = 0\<rparr>]"
  have h1: "?rs \<noteq> []" by simp
  have h2: "sum_list (map probability ?rs) = 0" by simp
  from spin_wheel_zero_total_uniform [OF h1 h2]
  have s: "substituted_weights ?rs = ([1, 1], 2)"
    and n: "normalized_weights ?rs = Inr [1 / 2, 1 / 2]"
    by (simp_all add: numeral_2_eq_2)
  have "spin_wheel (1 / 4) ?rs = Inr (Some ''A'')"
    by (simp add: spin_wheel_def n choices_def accumulate_def bisect.simps)
  moreover have "spin_wheel (3 / 4) ?rs = Inr (Some ''B'')"
    by (simp add: spin_wheel_def n choices_def accumulate_def bisect.simps)
  ultimately show ?thesis using s n h1 h2 by simp
qed

text \<open>
  C7. \<open>spin_wheel\<close> returns \<open>None\<close> exactly when the list of options is empty; for a
  list that is not empty it raises nothing and returns the name of one option of the
  list, whatever number the random source draws. The source only reads
  \<open>restaurants\<close> (it builds the new lists \<open>names\<close> and \<open>weights\<close>), which is why the
  embedding is a function of the list and the draw alone.
\<close>

theorem spin_wheel_result:
  "(spin_wheel u restaurants = Inr None \<longleftrightarrow> restaurants = []) \<and>
   (restaurants \<noteq> [] \<longrightarrow>
      (\<exists>i<length restaurants. spin_wheel u restaurants = Inr (Some (name (restaurants ! i)))))"
proof (intro conjI impI)
  show "spin_wheel u restaurants = Inr None \<longleftrightarrow> restaurants = []"
  proof
    assume n: "spin_wheel u restaurants = Inr None"
    show "restaurants = []"
    proof (rule ccontr)
      assume "restaurants \<noteq> []"
      from spin_wheel_Inr [OF this, of u] n show False by auto
    qed
  next
    assume "restaurants = []"
    then show "spin_wheel u restaurants = Inr None" by (simp add: spin_wheel_def)
  qed
next
  assume "restaurants \<noteq> []"
  then show "\<exists>i<length restaurants. spin_wheel u restaurants = Inr (Some (name (restaurants ! i)))"
    by (rule spin_wheel_Inr)
qed

text \<open>
  Instances: the empty list, and the options A, B, C with weights 10, 10, 80 and the
  draw 3/20, which selects B.
\<close>

theorem spin_wheel_result_witness:
  "spin_wheel (3 / 20) [] = Inr None \<and>
   [\<lparr>name = ''A'', probability = 10\<rparr>, \<lparr>name = ''B'', probability = 10\<rparr>,
    \<lparr>name = ''C'', probability = 80\<rparr>] \<noteq> [] \<and>
   (\<exists>i<length [\<lparr>name = ''A'', probability = 10\<rparr>, \<lparr>name = ''B'', probability = 10\<rparr>,
      \<lparr>name = ''C'', probability = 80\<rparr>].
      spin_wheel (3 / 20) [\<lparr>name = ''A'', probability = 10\<rparr>, \<lparr>name = ''B'', probability = 10\<rparr>,
      \<lparr>name = ''C'', probability = 80\<rparr>] =
      Inr (Some (name ([\<lparr>name = ''A'', probability = 10\<rparr>, \<lparr>name = ''B'', probability = 10\<rparr>,
      \<lparr>name = ''C'', probability = 80\<rparr>] ! i)))) \<and>
   spin_wheel (3 / 20) [\<lparr>name = ''A'', probability = 10\<rparr>, \<lparr>name = ''B'', probability = 10\<rparr>,
      \<lparr>name = ''C'', probability = 80\<rparr>] = Inr (Some ''B'')"
proof -
  let ?rs = "[\<lparr>name = ''A'', probability = 10\<rparr>, \<lparr>name = ''B'', probability = 10\<rparr>,
    \<lparr>name = ''C'', probability = 80\<rparr>]"
  have e: "spin_wheel (3 / 20) [] = Inr None"
    using spin_wheel_result [of "3 / 20" "[]"] by simp
  have h: "?rs \<noteq> []" by simp
  from spin_wheel_result [of "3 / 20" ?rs]
  have "?rs \<noteq> [] \<longrightarrow>
      (\<exists>i<length ?rs. spin_wheel (3 / 20) ?rs = Inr (Some (name (?rs ! i))))"
    by (rule conjunct2)
  from this h have i: "\<exists>i<length ?rs. spin_wheel (3 / 20) ?rs = Inr (Some (name (?rs ! i)))"
    by (rule mp)
  have "spin_wheel (3 / 20) ?rs = Inr (Some ''B'')"
    by (simp add: spin_wheel_def normalized_weights_def substituted_weights_def choices_def
        accumulate_def bisect.simps)
  with e h i show ?thesis by blast
qed

subsection \<open>Results about the spin animation\<close>

lemma target_rotation_Inr:
  assumes "sum_list (map probability restaurants) \<noteq> 0"
  shows "target_rotation restaurants winner_idx =
    Inr (1800 + 360 * real_of_int (sum_list (map probability (take (winner_idx + 1) restaurants))) /
           real_of_int (sum_list (map probability restaurants)))"
  using assms by (simp add: target_rotation_def spins_def Let_def)

lemma target_rotation_zero:
  assumes "sum_list (map probability restaurants) = 0"
  shows "target_rotation restaurants winner_idx = Inl ZeroDivisionError"
  using assms by (simp add: target_rotation_def Let_def)

lemma sum_list_nonneg_take:
  assumes "\<forall>r\<in>set rs. 0 \<le> probability r"
  shows "0 \<le> sum_list (map probability (take n rs))"
proof (rule sum_list_nonneg)
  fix x
  assume "x \<in> set (map probability (take n rs))"
  then obtain r where "r \<in> set (take n rs)" and "x = probability r" by auto
  with assms show "0 \<le> x" by (auto dest: in_set_takeD)
qed

lemma target_rotation_ge:
  assumes "\<forall>r\<in>set restaurants. 0 \<le> probability r"
    and "0 < sum_list (map probability restaurants)"
  shows "\<exists>target. target_rotation restaurants winner_idx = Inr target \<and> 1800 \<le> target"
proof -
  let ?p = "sum_list (map probability (take (winner_idx + 1) restaurants))"
  let ?t = "sum_list (map probability restaurants)"
  from assms(2) have "?t \<noteq> 0" by simp
  note tr = target_rotation_Inr [OF this, of winner_idx]
  have "0 \<le> ?p" using assms(1) by (rule sum_list_nonneg_take)
  then have "0 \<le> 360 * real_of_int ?p / real_of_int ?t"
    using assms(2) by simp
  with tr show ?thesis by simp
qed

lemma spin_loop_Inr:
  assumes "sum_list (map probability restaurants) \<noteq> 0"
    and "target_rotation restaurants winner_idx = Inr target"
  shows "\<exists>shown. spin_loop restaurants winner_idx fs = Inr shown \<and>
           map fst shown = map (\<lambda>frame. eased_progress frame * target) fs"
proof (induction fs)
  case Nil
  show ?case by simp
next
  case (Cons f fs)
  then obtain shown where s: "spin_loop restaurants winner_idx fs = Inr shown"
    and m: "map fst shown = map (\<lambda>frame. eased_progress frame * target) fs" by blast
  have r: "frame_rotation restaurants winner_idx f = Inr (eased_progress f * target)"
    by (simp add: frame_rotation_def assms(2))
  from generate_wheel_svg_Inr [OF assms(1)] obtain svg where
    g: "generate_wheel_svg restaurants (eased_progress f * target) None = Inr svg" by blast
  from s m r g show ?case by simp
qed

lemma spin_animation_Inr:
  assumes "sum_list (map probability restaurants) \<noteq> 0"
    and "target_rotation restaurants winner_idx = Inr target"
  shows "\<exists>shown svg. spin_animation restaurants winner_idx =
             Inr (shown, (eased_progress 59 * target, svg)) \<and>
           map fst shown = map (\<lambda>frame. eased_progress frame * target) [0..<frames]"
proof -
  from spin_loop_Inr [OF assms] obtain shown where
    s: "spin_loop restaurants winner_idx [0..<frames] = Inr shown"
    and m: "map fst shown = map (\<lambda>frame. eased_progress frame * target) [0..<frames]"
    by blast
  from m have "length shown = frames"
    using length_map [of fst shown] by simp
  then have ne: "shown \<noteq> []" by (auto simp: frames_def)
  then have "fst (last shown) = last (map fst shown)"
    by (simp add: last_map)
  also have "\<dots> = eased_progress 59 * target"
    by (simp add: m frames_def last_map)
  finally have f: "fst (last shown) = eased_progress 59 * target" .
  from generate_wheel_svg_Inr [OF assms(1)] obtain svg where
    "generate_wheel_svg restaurants (eased_progress 59 * target) (Some (int winner_idx)) = Inr svg"
    by blast
  with s f have "spin_animation restaurants winner_idx =
      Inr (shown, (eased_progress 59 * target, svg))"
    by (simp add: spin_animation_def Let_def)
  with m show ?thesis by blast
qed

lemma animation_schedule_eq:
  assumes "sum_list (map probability restaurants) \<noteq> 0"
    and "target_rotation restaurants winner_idx = Inr target"
  shows "animation_schedule restaurants winner_idx =
           Inr (map (\<lambda>frame. eased_progress frame * target) [0..<frames])"
    and "final_rotation restaurants winner_idx = Inr (eased_progress 59 * target)"
proof -
  from spin_animation_Inr [OF assms] obtain shown svg where
    a: "spin_animation restaurants winner_idx = Inr (shown, (eased_progress 59 * target, svg))"
    and m: "map fst shown = map (\<lambda>frame. eased_progress frame * target) [0..<frames]"
    by blast
  show "animation_schedule restaurants winner_idx =
      Inr (map (\<lambda>frame. eased_progress frame * target) [0..<frames])"
    by (simp add: animation_schedule_def a m)
  show "final_rotation restaurants winner_idx = Inr (eased_progress 59 * target)"
    by (simp add: final_rotation_def a)
qed

lemma eased_progress_0: "eased_progress 0 = 0"
  by (simp add: eased_progress_def)

lemma eased_progress_59: "eased_progress 59 = 215999 / 216000"
  by (simp add: eased_progress_def frames_def power3_eq_cube)

lemma eased_progress_mono:
  assumes "i \<le> j" and "j \<le> frames"
  shows "eased_progress i \<le> eased_progress j"
proof -
  have "real j / real frames \<le> 1"
    using assms(2) by (simp add: frames_def)
  then have a: "0 \<le> 1 - real j / real frames" by simp
  have "real i / real frames \<le> real j / real frames"
    using assms(1) by (simp add: frames_def)
  then have b: "1 - real j / real frames \<le> 1 - real i / real frames" by simp
  from b a have "(1 - real j / real frames) ^ 3 \<le> (1 - real i / real frames) ^ 3"
    by (rule power_mono)
  then show ?thesis by (simp add: eased_progress_def)
qed

text \<open>
  C6, amended to target rotations that are not negative. Whenever the target rotation
  the code computes for a list and a winner is not negative, the loop shows 60 frames,
  the rotation of frame \<open>frame\<close> is \<open>(1 - (1 - frame / 60) ^ 3) * target\<close>, the first
  rotation is 0 and the rotations never decrease from one frame to the next.
\<close>

theorem animation_schedule_monotone:
  assumes "target_rotation restaurants winner_idx = Inr target" and "0 \<le> target"
  shows "\<exists>rots.
           animation_schedule restaurants winner_idx = Inr rots \<and>
           length rots = 60 \<and>
           (\<forall>frame<60. rots ! frame = (1 - (1 - real frame / 60) ^ 3) * target) \<and>
           rots ! 0 = 0 \<and>
           (\<forall>i j. i \<le> j \<and> j < 60 \<longrightarrow> rots ! i \<le> rots ! j) \<and>
           sorted rots"
proof -
  have nz: "sum_list (map probability restaurants) \<noteq> 0"
  proof
    assume "sum_list (map probability restaurants) = 0"
    from target_rotation_zero [OF this, of winner_idx] assms(1) show False by simp
  qed
  define rots where "rots = map (\<lambda>frame. eased_progress frame * target) [0..<frames]"
  have a: "animation_schedule restaurants winner_idx = Inr rots"
    unfolding rots_def using nz assms(1) by (rule animation_schedule_eq(1))
  have l: "length rots = 60"
    by (simp add: rots_def frames_def)
  have n: "rots ! frame = eased_progress frame * target" if "frame < 60" for frame
    using that by (simp add: rots_def frames_def)
  have f: "\<forall>frame<60. rots ! frame = (1 - (1 - real frame / 60) ^ 3) * target"
    using n by (simp add: eased_progress_def frames_def)
  have z: "rots ! 0 = 0"
    using n [of 0] by (simp add: eased_progress_0)
  have mono: "rots ! i \<le> rots ! j" if "i \<le> j" and "j < 60" for i j
  proof -
    from that have "eased_progress i \<le> eased_progress j"
      by (intro eased_progress_mono) (simp_all add: frames_def)
    with assms(2) have "eased_progress i * target \<le> eased_progress j * target"
      by (intro mult_right_mono) simp_all
    with that n [of i] n [of j] show ?thesis by simp
  qed
  have s: "sorted rots"
    using mono l by (simp add: sorted_iff_nth_mono)
  from a l f z mono s show ?thesis by blast
qed

text \<open>
  Instances: options A, B, C with weights 10, 10, 80 and winner A (target 1836), whose
  rotations start with 0 and 90.2785, pass 1606.5 at frame 30 and end with 1835.9915;
  and the weights -1 and 2 with winner A (target 1440).
\<close>

theorem animation_schedule_monotone_witness:
  "target_rotation [\<lparr>name = ''A'', probability = 10\<rparr>, \<lparr>name = ''B'', probability = 10\<rparr>,
      \<lparr>name = ''C'', probability = 80\<rparr>] 0 = Inr 1836 \<and>
   (0 :: real) \<le> 1836 \<and>
   (\<exists>rots. animation_schedule [\<lparr>name = ''A'', probability = 10\<rparr>,
      \<lparr>name = ''B'', probability = 10\<rparr>, \<lparr>name = ''C'', probability = 80\<rparr>] 0 = Inr rots \<and>
      length rots = 60 \<and> rots ! 0 = 0 \<and> rots ! 1 = 180557 / 2000 \<and>
      rots ! 30 = 3213 / 2 \<and> rots ! 59 = 3671983 / 2000 \<and> sorted rots) \<and>
   target_rotation [\<lparr>name = ''A'', probability = - 1\<rparr>, \<lparr>name = ''B'', probability = 2\<rparr>] 0 =
     Inr 1440 \<and>
   (0 :: real) \<le> 1440 \<and>
   (\<exists>rots. animation_schedule [\<lparr>name = ''A'', probability = - 1\<rparr>,
      \<lparr>name = ''B'', probability = 2\<rparr>] 0 = Inr rots \<and>
      length rots = 60 \<and> rots ! 0 = 0 \<and> rots ! 30 = 1260 \<and> sorted rots)"
proof -
  let ?rs = "[\<lparr>name = ''A'', probability = 10\<rparr>, \<lparr>name = ''B'', probability = 10\<rparr>,
    \<lparr>name = ''C'', probability = 80\<rparr>]"
  let ?qs = "[\<lparr>name = ''A'', probability = - 1\<rparr>, \<lparr>name = ''B'', probability = 2\<rparr>]"
  have t: "target_rotation ?rs 0 = Inr 1836"
    by (simp add: target_rotation_def spins_def)
  have p: "(0 :: real) \<le> 1836" by simp
  from animation_schedule_monotone [OF t p] obtain rots where
    a: "animation_schedule ?rs 0 = Inr rots" and l: "length rots = 60"
    and f: "\<forall>frame<60. rots ! frame = (1 - (1 - real frame / 60) ^ 3) * 1836"
    and z: "rots ! 0 = 0" and s: "sorted rots"
    by blast
  from f [rule_format, of 1] f [rule_format, of 30] f [rule_format, of 59]
  have v: "rots ! 1 = 180557 / 2000" "rots ! 30 = 3213 / 2" "rots ! 59 = 3671983 / 2000"
    by (simp_all add: power3_eq_cube)
  have t': "target_rotation ?qs 0 = Inr 1440"
    by (simp add: target_rotation_def spins_def)
  have p': "(0 :: real) \<le> 1440" by simp
  from animation_schedule_monotone [OF t' p'] obtain rots' where
    a': "animation_schedule ?qs 0 = Inr rots'" and l': "length rots' = 60"
    and f': "\<forall>frame<60. rots' ! frame = (1 - (1 - real frame / 60) ^ 3) * 1440"
    and z': "rots' ! 0 = 0" and s': "sorted rots'"
    by blast
  from f' [rule_format, of 30] have v': "rots' ! 30 = 1260"
    by (simp add: power3_eq_cube)
  from a l z v s have "\<exists>rots. animation_schedule ?rs 0 = Inr rots \<and>
      length rots = 60 \<and> rots ! 0 = 0 \<and> rots ! 1 = 180557 / 2000 \<and>
      rots ! 30 = 3213 / 2 \<and> rots ! 59 = 3671983 / 2000 \<and> sorted rots"
    by blast
  moreover from a' l' z' v' s' have "\<exists>rots. animation_schedule ?qs 0 = Inr rots \<and>
      length rots = 60 \<and> rots ! 0 = 0 \<and> rots ! 30 = 1260 \<and> sorted rots"
    by blast
  ultimately show ?thesis using t t' by simp
qed

text \<open>
  C6 as stated speaks of every target rotation. The code computes the target from the
  weights as they are in the file: for the weights -6 and 7 and the first option as
  winner it is \<open>5 * 360 + 360 * (-6) / 1 = -360\<close>, and the rotations decrease from 0 at
  frame 0 to -17.70 at frame 1.
\<close>

theorem animation_schedule_negative_target_counterexample:
  "target_rotation [\<lparr>name = ''A'', probability = - 6\<rparr>, \<lparr>name = ''B'', probability = 7\<rparr>] 0 =
     Inr (- 360) \<and>
   (\<exists>rots. animation_schedule [\<lparr>name = ''A'', probability = - 6\<rparr>,
      \<lparr>name = ''B'', probability = 7\<rparr>] 0 = Inr rots \<and>
      length rots = 60 \<and> rots ! 0 = 0 \<and> rots ! 1 = - (10621 / 600) \<and>
      rots ! 1 < rots ! 0 \<and> \<not> sorted rots)"
proof -
  let ?rs = "[\<lparr>name = ''A'', probability = - 6\<rparr>, \<lparr>name = ''B'', probability = 7\<rparr>]"
  let ?rots = "map (\<lambda>frame. eased_progress frame * (- 360)) [0..<frames]"
  have nz: "sum_list (map probability ?rs) \<noteq> 0" by simp
  have t: "target_rotation ?rs 0 = Inr (- 360)"
    by (simp add: target_rotation_def spins_def)
  have a: "animation_schedule ?rs 0 = Inr ?rots"
    using nz t by (rule animation_schedule_eq(1))
  have l: "length ?rots = 60"
    by (simp add: frames_def)
  have z: "?rots ! 0 = 0"
    by (simp add: frames_def eased_progress_0)
  have o: "?rots ! 1 = - (10621 / 600)"
    by (simp add: frames_def eased_progress_def power3_eq_cube)
  from z o have d: "?rots ! 1 < ?rots ! 0" by simp
  have "\<not> sorted ?rots"
  proof
    assume "sorted ?rots"
    then have "?rots ! 0 \<le> ?rots ! 1"
      using l by (intro sorted_nth_mono) simp_all
    with d show False by simp
  qed
  with a l z o d have "\<exists>rots. animation_schedule ?rs 0 = Inr rots \<and>
      length rots = 60 \<and> rots ! 0 = 0 \<and> rots ! 1 = - (10621 / 600) \<and>
      rots ! 1 < rots ! 0 \<and> \<not> sorted rots"
    by blast
  with t show ?thesis by simp
qed

text \<open>
  C2. The claim is that the rotation of the last of the 60 frames equals the target
  rotation exactly. In the code \<open>frame\<close> runs over \<open>range(frames)\<close>, so the last
  \<open>progress\<close> is 59/60, the last eased progress is \<open>1 - (1/60) ^ 3 = 215999/216000\<close>
  and the last rotation falls short of the target. Evaluated for A, B, C with weights
  10, 10, 80 and winner C: the target is 2160, the last frame and the final drawing
  are at 2159.99.
\<close>

theorem final_rotation_short_of_target:
  "target_rotation [\<lparr>name = ''A'', probability = 10\<rparr>, \<lparr>name = ''B'', probability = 10\<rparr>,
      \<lparr>name = ''C'', probability = 80\<rparr>] 2 = Inr 2160 \<and>
   final_rotation [\<lparr>name = ''A'', probability = 10\<rparr>, \<lparr>name = ''B'', probability = 10\<rparr>,
      \<lparr>name = ''C'', probability = 80\<rparr>] 2 = Inr (215999 / 100) \<and>
   (\<exists>rots. animation_schedule [\<lparr>name = ''A'', probability = 10\<rparr>,
      \<lparr>name = ''B'', probability = 10\<rparr>, \<lparr>name = ''C'', probability = 80\<rparr>] 2 = Inr rots \<and>
      length rots = 60 \<and> last rots = 215999 / 100) \<and>
   final_rotation [\<lparr>name = ''A'', probability = 10\<rparr>, \<lparr>name = ''B'', probability = 10\<rparr>,
      \<lparr>name = ''C'', probability = 80\<rparr>] 2 \<noteq>
   target_rotation [\<lparr>name = ''A'', probability = 10\<rparr>, \<lparr>name = ''B'', probability = 10\<rparr>,
      \<lparr>name = ''C'', probability = 80\<rparr>] 2"
proof -
  let ?rs = "[\<lparr>name = ''A'', probability = 10\<rparr>, \<lparr>name = ''B'', probability = 10\<rparr>,
    \<lparr>name = ''C'', probability = 80\<rparr>]"
  have nz: "sum_list (map probability ?rs) \<noteq> 0" by simp
  have t: "target_rotation ?rs 2 = Inr 2160"
    by (simp add: target_rotation_def spins_def)
  have f: "final_rotation ?rs 2 = Inr (215999 / 100)"
    using animation_schedule_eq(2) [OF nz t] by (simp add: eased_progress_59)
  have a: "animation_schedule ?rs 2 =
      Inr (map (\<lambda>frame. eased_progress frame * 2160) [0..<frames])"
    using nz t by (rule animation_schedule_eq(1))
  have "last (map (\<lambda>frame. eased_progress frame * 2160) [0..<frames]) = 215999 / 100"
    by (simp add: frames_def last_map eased_progress_59)
  moreover have "length (map (\<lambda>frame. eased_progress frame * 2160) [0..<frames]) = 60"
    by (simp add: frames_def)
  ultimately have "\<exists>rots. animation_schedule ?rs 2 = Inr rots \<and> length rots = 60 \<and>
      last rots = 215999 / 100"
    using a by blast
  with t f show ?thesis by simp
qed

text \<open>
  C1. The claim is that the rotation the animation ends with puts the centre of the
  winner's segment under the pointer at the top. Evaluated for A, B, C with weights
  10, 10, 80 and winner A: the segment of A starts at 0 and sweeps 36, so its centre
  is at 18; the target of the code is \<open>5 * 360 + 36\<close>, with the end of the segment in
  place of its centre, and the animation ends at 1835.9915. At that rotation the
  pointer shows angle 324.0085 of the wheel, which lies in the segment of C (from 72
  to 360); at the target itself it would show 324. The centre of A is under the
  pointer at the rotation \<open>5 * 360 + 342\<close>; and the final rotation is not
  \<open>5 * 360 + 18\<close> either.
\<close>

theorem final_rotation_misses_center:
  "target_rotation [\<lparr>name = ''A'', probability = 10\<rparr>, \<lparr>name = ''B'', probability = 10\<rparr>,
      \<lparr>name = ''C'', probability = 80\<rparr>] 0 = Inr 1836 \<and>
   final_rotation [\<lparr>name = ''A'', probability = 10\<rparr>, \<lparr>name = ''B'', probability = 10\<rparr>,
      \<lparr>name = ''C'', probability = 80\<rparr>] 0 = Inr (3671983 / 2000) \<and>
   (\<exists>segs. wheel_segments [\<lparr>name = ''A'', probability = 10\<rparr>, \<lparr>name = ''B'', probability = 10\<rparr>,
      \<lparr>name = ''C'', probability = 80\<rparr>] (Some 0) = Inr segs \<and>
      map seg_current_angle segs = [0, 36, 72] \<and> map seg_angle segs = [36, 36, 288] \<and>
      map seg_text_rotation segs = [18, 54, 216]) \<and>
   pointer_angle (3671983 / 2000) = 648017 / 2000 \<and>
   pointer_angle 1836 = 324 \<and>
   pointer_angle (5 * 360 + 342) = 18 \<and>
   (3671983 / 2000 :: real) \<noteq> 5 * 360 + 18"
proof -
  let ?rs = "[\<lparr>name = ''A'', probability = 10\<rparr>, \<lparr>name = ''B'', probability = 10\<rparr>,
    \<lparr>name = ''C'', probability = 80\<rparr>]"
  have nz: "sum_list (map probability ?rs) \<noteq> 0" by simp
  have t: "target_rotation ?rs 0 = Inr 1836"
    by (simp add: target_rotation_def spins_def)
  have f: "final_rotation ?rs 0 = Inr (3671983 / 2000)"
    using animation_schedule_eq(2) [OF nz t] by (simp add: eased_progress_59)
  have w: "\<exists>segs. wheel_segments ?rs (Some 0) = Inr segs \<and>
      map seg_current_angle segs = [0, 36, 72] \<and> map seg_angle segs = [36, 36, 288] \<and>
      map seg_text_rotation segs = [18, 54, 216]"
    by (simp add: wheel_segments_def draw_segment_def Let_def)
  have p: "pointer_angle (3671983 / 2000) = 648017 / 2000"
    by (simp add: pointer_angle_def)
  have q: "pointer_angle 1836 = 324"
    by (simp add: pointer_angle_def)
  have c: "pointer_angle (5 * 360 + 342) = 18"
    by (simp add: pointer_angle_def)
  from t f w p q c show ?thesis by simp
qed

end
